theory Spec2Isabelle
  imports Main
begin

section \<open>Python values and envelopes\<close>

text \<open>
  An envelope is a Python dict with string keys. The values the runtime reads are
  None, booleans, integers, strings, lists, tuples and nested dicts. A dict is an
  association list; a lookup takes the first binding of the key.
\<close>

datatype pyval =
    PNone
  | PBool bool
  | PInt int
  | PStr string
  | PList "pyval list"
  | PTuple "pyval list"
  | PDict "(string \<times> pyval) list"

type_synonym envelope = "(string \<times> pyval) list"

text \<open>
  An exception raised by user code or by the interpreter. \<open>Exc\<close> is an instance of
  Python's \<open>Exception\<close> (the argument names it); \<open>BaseExc\<close> is a
  \<open>BaseException\<close> that does not derive from \<open>Exception\<close> (a cancellation, a
  keyboard interrupt), which \<open>except Exception\<close> does not catch.
\<close>

datatype exn = Exc string | BaseExc string

fun is_Exception :: "exn \<Rightarrow> bool" where
  "is_Exception (Exc _) = True"
| "is_Exception (BaseExc _) = False"

text \<open>Python truthiness, as \<open>or\<close>, \<open>and\<close> and \<open>if\<close> test it.\<close>

fun truthy :: "pyval \<Rightarrow> bool" where
  "truthy PNone = False"
| "truthy (PBool b) = b"
| "truthy (PInt i) = (i \<noteq> 0)"
| "truthy (PStr s) = (s \<noteq> [])"
| "truthy (PList xs) = (xs \<noteq> [])"
| "truthy (PTuple xs) = (xs \<noteq> [])"
| "truthy (PDict kvs) = (kvs \<noteq> [])"

text \<open>\<open>a or b\<close> on values that are already computed.\<close>

definition py_or :: "pyval \<Rightarrow> pyval \<Rightarrow> pyval" where
  "py_or a b = (if truthy a then a else b)"

text \<open>\<open>d.get(k)\<close> and \<open>d.get(k, default)\<close> on a dict.\<close>

definition dict_get_default :: "(string \<times> pyval) list \<Rightarrow> string \<Rightarrow> pyval \<Rightarrow> pyval" where
  "dict_get_default d k dflt = (case map_of d k of None \<Rightarrow> dflt | Some v \<Rightarrow> v)"

definition dict_get :: "(string \<times> pyval) list \<Rightarrow> string \<Rightarrow> pyval" where
  "dict_get d k = dict_get_default d k PNone"

text \<open>
  \<open>v.get(k)\<close> on an arbitrary value: only a dict has the method, every other value
  raises AttributeError.
\<close>

definition val_get :: "pyval \<Rightarrow> string \<Rightarrow> exn + pyval" where
  "val_get v k = (case v of PDict d \<Rightarrow> Inr (dict_get d k) | _ \<Rightarrow> Inl (Exc ''AttributeError''))"

definition val_get_default :: "pyval \<Rightarrow> string \<Rightarrow> pyval \<Rightarrow> exn + pyval" where
  "val_get_default v k dflt =
     (case v of PDict d \<Rightarrow> Inr (dict_get_default d k dflt) | _ \<Rightarrow> Inl (Exc ''AttributeError''))"

text \<open>
  Hashing: lists and dicts are unhashable, a tuple is hashable when its elements are.
  A membership test in a set or a dict hashes the value first and raises TypeError
  on an unhashable one.
\<close>

fun hashable :: "pyval \<Rightarrow> bool" where
  "hashable (PList xs) = False"
| "hashable (PDict kvs) = False"
| "hashable (PTuple xs) = list_all hashable xs"
| "hashable v = True"

section \<open>Segment-type extraction\<close>

text \<open>
  \<^verbatim>\<open>
  def _extract_segment_type(message):
      seg = message.get("message_segment") or message.get("message_chain")
      if isinstance(seg, dict):
          return seg.get("type")
      if isinstance(seg, list) and seg:
          first = seg[0]
          if isinstance(first, dict):
              return first.get("type")
      return None
  \<close>
\<close>

definition extract_segment_type :: "envelope \<Rightarrow> pyval" where
  "extract_segment_type message =
     (let seg = py_or (dict_get message ''message_segment'') (dict_get message ''message_chain'')
      in case seg of
           PDict d \<Rightarrow> dict_get d ''type''
         | PList (first # rest) \<Rightarrow> (case first of PDict d \<Rightarrow> dict_get d ''type'' | _ \<Rightarrow> PNone)
         | _ \<Rightarrow> PNone)"


section \<open>Callables, routes and the runtime\<close>

text \<open>
  User callables are modelled by what they do on their arguments: return a value or
  raise. A predicate returns any value (its truthiness is what counts), a handler
  returns a response or None, a hook returns nothing the runtime reads.
  A handler carries its \<open>__name__\<close>, which \<open>add_route\<close> uses in the owner map.
\<close>

type_synonym Predicate = "envelope \<Rightarrow> exn + pyval"

record MessageHandler =
  h_name :: string
  h_call :: "envelope \<Rightarrow> exn + pyval"

type_synonym Hook = "envelope \<Rightarrow> exn + unit"

type_synonym ErrorHook = "envelope \<Rightarrow> exn \<Rightarrow> exn + unit"

type_synonym BatchHandler = "envelope list \<Rightarrow> exn + pyval list option"

text \<open>
  A middleware is called as \<open>middleware(message, next)\<close>. On a message it either
  finishes (returns or raises) or calls \<open>next\<close> on a message of its choice and goes
  on from what \<open>next\<close> gave back, a returned value or a raised exception. It may
  call \<open>next\<close> again, or never.
\<close>

datatype mw_step =
    Mw_done "exn + pyval"
  | Mw_next envelope "exn + pyval \<Rightarrow> mw_step"

type_synonym Middleware = "envelope \<Rightarrow> mw_step"

text \<open>
  The log of the calls the runtime makes to user callables, in the order it makes
  them. Hooks are named by their position in their list, a route's predicate by
  the route's identity, a middleware by its position in the registration list.
  \<open>Mw_enter\<close> is logged when a middleware is called, \<open>Mw_leave\<close> when control
  leaves it, by return or by raise.
\<close>

datatype hook_phase = Before | After

datatype event =
    Hook_called hook_phase nat envelope
  | Error_hook_called nat envelope exn
  | Predicate_called nat envelope
  | Handler_called string envelope
  | Mw_enter nat
  | Mw_leave nat
  | Batch_handler_called "envelope list"

text \<open>
  \<open>rid\<close> is the identity of the route object (Python's \<open>id(route)\<close>): the matcher
  deduplicates candidates by it. Routes are never removed nor mutated, so the
  position at which a route enters \<open>_routes\<close> identifies it.
  The sets \<open>message_types\<close> and \<open>event_types\<close> are lists without repetition.
\<close>

record MessageRoute =
  rid :: nat
  predicate :: Predicate
  handler :: MessageHandler
  name :: "string option"
  message_type :: "string option"
  message_types :: "string list option"
  event_types :: "string list option"

record MessageRuntime =
  routes :: "MessageRoute list"
  before_hooks :: "Hook list"
  after_hooks :: "Hook list"
  error_hooks :: "ErrorHook list"
  batch_handler :: "BatchHandler option"
  middlewares :: "Middleware list"
  type_routes :: "string \<rightharpoonup> MessageRoute list"
  event_routes :: "string \<rightharpoonup> MessageRoute list"
  explicit_type_handlers :: "string \<rightharpoonup> string"

definition new_runtime :: MessageRuntime where
  "new_runtime =
     \<lparr>routes = [], before_hooks = [], after_hooks = [], error_hooks = [],
      batch_handler = None, middlewares = [], type_routes = Map.empty,
      event_routes = Map.empty, explicit_type_handlers = Map.empty\<rparr>"

text \<open>
  \<open>MessageProcessingError(message, original)\<close>, raised \<open>from\<close> the original
  exception. \<open>detail\<close> is the value that the constructor formats into the message
  text: \<open>message.get("id", "<unknown>")\<close>.
\<close>

record ProcessingError =
  detail :: pyval
  message_envelope :: envelope
  original :: exn
  cause :: exn

definition MessageProcessingError :: "envelope \<Rightarrow> exn \<Rightarrow> ProcessingError" where
  "MessageProcessingError message orig =
     \<lparr>detail = dict_get_default message ''id'' (PStr ''<unknown>''),
      message_envelope = message, original = orig, cause = orig\<rparr>"

text \<open>
  How \<open>handle_message\<close> fails: an exception that propagates as it was raised, or
  a MessageProcessingError.
\<close>

datatype failure = Propagated exn | Wrapped ProcessingError

section \<open>Registration\<close>

text \<open>
  The \<open>message_type\<close> argument of \<open>add_route\<close> and \<open>on_message\<close>: None, a str, a
  list of str, a tuple of str, or any other value. The source tests
  \<open>isinstance(message_type, str)\<close>, then \<open>isinstance(message_type, list)\<close>.
\<close>

datatype mt_arg =
    Mt_none
  | Mt_str string
  | Mt_list "string list"
  | Mt_tuple "string list"
  | Mt_other

text \<open>\<open>name or getattr(handler, "__name__", str(handler))\<close>\<close>

definition handler_name_of :: "string option \<Rightarrow> MessageHandler \<Rightarrow> string" where
  "handler_name_of nm h =
     (case nm of None \<Rightarrow> h_name h | Some n \<Rightarrow> if n \<noteq> [] then n else h_name h)"

text \<open>
  The loop that detects a duplicate registration:
  \<^verbatim>\<open>
  for msg_type in message_types_set:
      if msg_type in self._explicit_type_handlers:
          raise ValueError(...)
      self._explicit_type_handlers[msg_type] = handler_name
  \<close>
  It returns the owner map as the loop leaves it, also when it raises.
\<close>

fun claim_types :: "string list \<Rightarrow> string \<Rightarrow> (string \<rightharpoonup> string) \<Rightarrow> (exn + unit) \<times> (string \<rightharpoonup> string)" where
  "claim_types [] hn owners = (Inr (), owners)"
| "claim_types (t # ts) hn owners =
     (if t \<in> dom owners then (Inl (Exc ''ValueError''), owners)
      else claim_types ts hn (owners(t \<mapsto> hn)))"

text \<open>\<open>index.setdefault(key, []).append(route)\<close>\<close>

definition bucket_append :: "MessageRoute \<Rightarrow> string \<Rightarrow> (string \<rightharpoonup> MessageRoute list) \<Rightarrow> (string \<rightharpoonup> MessageRoute list)" where
  "bucket_append r k index = index(k \<mapsto> (case index k of None \<Rightarrow> [] | Some rs \<Rightarrow> rs) @ [r])"

text \<open>
  The first part of \<open>add_route\<close>: the shape of \<open>message_type\<close>. The result is
  \<open>(message_types_set, single_message_type)\<close>. \<open>iter_order xs\<close> stands for
  \<open>set(xs)\<close>, as the list of its elements in the order Python iterates the set
  (each distinct element once; the order follows the hashes of the strings).
\<close>

definition message_type_sets :: "(string list \<Rightarrow> string list) \<Rightarrow> mt_arg \<Rightarrow> exn + (string list option \<times> string option)" where
  "message_type_sets iter_order mt =
     (case mt of
        Mt_none \<Rightarrow> Inr (None, None)
      | Mt_str s \<Rightarrow> Inr (Some [s], Some s)
      | Mt_list xs \<Rightarrow>
          Inr (Some (iter_order xs), (case iter_order xs of [t] \<Rightarrow> Some t | _ \<Rightarrow> None))
      | Mt_tuple xs \<Rightarrow> Inl (Exc ''TypeError'')
      | Mt_other \<Rightarrow> Inl (Exc ''TypeError''))"

text \<open>
  The last part of \<open>add_route\<close>: the route is appended to \<open>_routes\<close> and indexed
  under each of its message types and each of its event types.
  \<^verbatim>\<open>
  self._routes.append(route)
  if message_types_set:
      for msg_type in message_types_set:
          self._type_routes.setdefault(msg_type, []).append(route)
  if route.event_types:
      for et in route.event_types:
          self._event_routes.setdefault(et, []).append(route)
  \<close>
\<close>

definition insert_route :: "MessageRoute \<Rightarrow> MessageRuntime \<Rightarrow> MessageRuntime" where
  "insert_route route rt =
     rt\<lparr>routes := routes rt @ [route],
        type_routes :=
          (case message_types route of
             None \<Rightarrow> type_routes rt
           | Some ts \<Rightarrow> fold (bucket_append route) ts (type_routes rt)),
        event_routes :=
          (case event_types route of
             None \<Rightarrow> event_routes rt
           | Some es \<Rightarrow> fold (bucket_append route) es (event_routes rt))\<rparr>"

text \<open>
  \<open>add_route(predicate, handler, name, message_type=..., event_types=...)\<close>.
  The result is what the call does (raise or return) and the runtime as the call
  leaves it.
\<close>

definition add_route ::
  "(string list \<Rightarrow> string list) \<Rightarrow> MessageRuntime \<Rightarrow> Predicate \<Rightarrow> MessageHandler \<Rightarrow> string option
     \<Rightarrow> mt_arg \<Rightarrow> string list option \<Rightarrow> (exn + unit) \<times> MessageRuntime" where
  "add_route iter_order rt pred h nm mt ets =
     (case message_type_sets iter_order mt of
        Inl e \<Rightarrow> (Inl e, rt)
      | Inr (mts, single) \<Rightarrow>
          (case (case mts of
                   None \<Rightarrow> (Inr (), explicit_type_handlers rt)
                 | Some ts \<Rightarrow> claim_types ts (handler_name_of nm h) (explicit_type_handlers rt)) of
             (Inl e, owners) \<Rightarrow> (Inl e, rt\<lparr>explicit_type_handlers := owners\<rparr>)
           | (Inr u, owners) \<Rightarrow>
               (Inr (),
                insert_route
                  \<lparr>rid = length (routes rt), predicate = pred, handler = h, name = nm,
                   message_type = single, message_types = mts,
                   event_types = map_option iter_order ets\<rparr>
                  (rt\<lparr>explicit_type_handlers := owners\<rparr>))))"

text \<open>One registration call, and a runtime built by a sequence of calls.\<close>

record route_call =
  c_predicate :: Predicate
  c_handler :: MessageHandler
  c_name :: "string option"
  c_message_type :: mt_arg
  c_event_types :: "string list option"

definition apply_call :: "(string list \<Rightarrow> string list) \<Rightarrow> route_call \<Rightarrow> MessageRuntime \<Rightarrow> MessageRuntime" where
  "apply_call iter_order c rt =
     snd (add_route iter_order rt (c_predicate c) (c_handler c) (c_name c)
            (c_message_type c) (c_event_types c))"

definition register_all :: "(string list \<Rightarrow> string list) \<Rightarrow> route_call list \<Rightarrow> MessageRuntime \<Rightarrow> MessageRuntime" where
  "register_all iter_order cs rt = fold (apply_call iter_order) cs rt"

section \<open>The decorator \<open>on_message\<close>\<close>

text \<open>
  \<open>x not in s\<close> for a set of strings \<open>s\<close>: hashing an unhashable \<open>x\<close> raises
  TypeError; a hashable value is a member only if it is one of the strings.
\<close>

definition not_in_str_set :: "pyval \<Rightarrow> string list \<Rightarrow> exn + bool" where
  "not_in_str_set x ts =
     (if hashable x then Inr (x \<notin> PStr ` set ts) else Inl (Exc ''TypeError''))"

text \<open>\<open>x not in (None, platform)\<close>, a tuple test: it compares, it does not hash.\<close>

definition not_none_or :: "pyval \<Rightarrow> string \<Rightarrow> bool" where
  "not_none_or x p = (x \<noteq> PNone \<and> x \<noteq> PStr p)"

text \<open>
  \<^verbatim>\<open>
  async def combined_predicate(message):
      if message_types_set is not None:
          extracted_type = _extract_segment_type(message)
          if extracted_type not in message_types_set:
              return False
      if platform is not None:
          info_platform = message.get("message_info", {}).get("platform")
          if message.get("platform") not in (None, platform) and info_platform is None:
              return False
          if info_platform not in (None, platform):
              return False
      if predicate is None:
          return True
      return await _invoke_callable(predicate, message, prefer_thread=False)
  \<close>
  The three stages are three functions; each returns \<open>Inr True\<close> to go on.
\<close>

definition type_check :: "string list option \<Rightarrow> envelope \<Rightarrow> exn + bool" where
  "type_check mts message =
     (case mts of
        None \<Rightarrow> Inr True
      | Some ts \<Rightarrow>
          (case not_in_str_set (extract_segment_type message) ts of
             Inl e \<Rightarrow> Inl e
           | Inr absent \<Rightarrow> Inr (\<not> absent)))"

definition platform_check :: "string option \<Rightarrow> envelope \<Rightarrow> exn + bool" where
  "platform_check plat message =
     (case plat of
        None \<Rightarrow> Inr True
      | Some p \<Rightarrow>
          (case val_get (dict_get_default message ''message_info'' (PDict [])) ''platform'' of
             Inl e \<Rightarrow> Inl e
           | Inr info_platform \<Rightarrow>
               if not_none_or (dict_get message ''platform'') p \<and> info_platform = PNone
               then Inr False
               else if not_none_or info_platform p then Inr False
               else Inr True))"

definition combined_predicate :: "string list option \<Rightarrow> string option \<Rightarrow> Predicate option \<Rightarrow> Predicate" where
  "combined_predicate mts plat custom message =
     (case type_check mts message of
        Inl e \<Rightarrow> Inl e
      | Inr ok1 \<Rightarrow>
          if \<not> ok1 then Inr (PBool False)
          else (case platform_check plat message of
                  Inl e \<Rightarrow> Inl e
                | Inr ok2 \<Rightarrow>
                    if \<not> ok2 then Inr (PBool False)
                    else (case custom of None \<Rightarrow> Inr (PBool True) | Some p \<Rightarrow> p message)))"

text \<open>
  \<open>on_message(func, message_type=..., platform=..., predicate=..., name=...)\<close> on a
  plain function: the shape of \<open>message_type\<close> is checked, then the function is
  registered with the combined predicate. (A function whose first parameter is
  \<open>self\<close> is registered later, when an instance is built; that path is not
  modelled.)
\<close>

definition on_message ::
  "(string list \<Rightarrow> string list) \<Rightarrow> MessageRuntime \<Rightarrow> MessageHandler \<Rightarrow> mt_arg \<Rightarrow> string option
     \<Rightarrow> Predicate option \<Rightarrow> string option \<Rightarrow> (exn + unit) \<times> MessageRuntime" where
  "on_message iter_order rt func mt plat custom nm =
     (case message_type_sets iter_order mt of
        Inl e \<Rightarrow> (Inl e, rt)
      | Inr (mts, single) \<Rightarrow>
          add_route iter_order rt (combined_predicate mts plat custom) func nm mt None)"

section \<open>The matcher\<close>

text \<open>
  \<open>key in index\<close> guarded by the truthiness of the key, as in
  \<open>if message_type and message_type in self._type_routes\<close>: the bucket of the key,
  nothing for a falsy key or a key that is not in the index, TypeError for a truthy
  unhashable key.
\<close>

definition bucket_of :: "pyval \<Rightarrow> (string \<rightharpoonup> MessageRoute list) \<Rightarrow> exn + MessageRoute list" where
  "bucket_of key index =
     (if \<not> truthy key then Inr []
      else if \<not> hashable key then Inl (Exc ''TypeError'')
      else (case key of
              PStr s \<Rightarrow> (case index s of None \<Rightarrow> Inr [] | Some rs \<Rightarrow> Inr rs)
            | _ \<Rightarrow> Inr []))"

text \<open>
  \<^verbatim>\<open>
  event_type = (message.get("event_type")
                or message.get("message_info", {}).get("additional_config", {}).get("event_type"))
  \<close>
  The right operand is evaluated only when the left one is falsy.
\<close>

definition extract_event_type :: "envelope \<Rightarrow> exn + pyval" where
  "extract_event_type message =
     (if truthy (dict_get message ''event_type'') then Inr (dict_get message ''event_type'')
      else (case val_get_default (dict_get_default message ''message_info'' (PDict []))
                   ''additional_config'' (PDict []) of
              Inl e \<Rightarrow> Inl e
            | Inr cfg \<Rightarrow> val_get cfg ''event_type''))"

text \<open>A generic route: \<open>route.message_types is None and route.event_types is None\<close>.\<close>

definition is_generic :: "MessageRoute \<Rightarrow> bool" where
  "is_generic r = (message_types r = None \<and> event_types r = None)"

text \<open>The two candidate lists that \<open>_match_route\<close> builds under the lock.\<close>

definition candidates :: "MessageRuntime \<Rightarrow> envelope \<Rightarrow> exn + (MessageRoute list \<times> MessageRoute list)" where
  "candidates rt message =
     (let mtype = extract_segment_type message in
      case extract_event_type message of
        Inl e \<Rightarrow> Inl e
      | Inr etype \<Rightarrow>
          (case bucket_of etype (event_routes rt) of
             Inl e \<Rightarrow> Inl e
           | Inr by_event \<Rightarrow>
               (case bucket_of mtype (type_routes rt) of
                  Inl e \<Rightarrow> Inl e
                | Inr by_type \<Rightarrow> Inr (by_event @ by_type, filter is_generic (routes rt)))))"

text \<open>
  One of the two loops over candidates, with the set \<open>seen\<close> of identities:
  \<^verbatim>\<open>
  for route in candidates:
      rid = id(route)
      if rid in seen: continue
      seen.add(rid)
      should_handle = await _invoke_callable(route.predicate, message, prefer_thread=False)
      if should_handle: return route
  \<close>
  The result is the route found (None when the loop ends), the set \<open>seen\<close> as the loop
  leaves it, and the predicate calls made.
\<close>

fun try_candidates :: "MessageRoute list \<Rightarrow> nat list \<Rightarrow> envelope
     \<Rightarrow> (exn + MessageRoute option) \<times> nat list \<times> event list" where
  "try_candidates [] seen message = (Inr None, seen, [])"
| "try_candidates (r # rs) seen message =
     (if rid r \<in> set seen then try_candidates rs seen message
      else (case predicate r message of
              Inl e \<Rightarrow> (Inl e, rid r # seen, [Predicate_called (rid r) message])
            | Inr v \<Rightarrow>
                if truthy v then (Inr (Some r), rid r # seen, [Predicate_called (rid r) message])
                else (case try_candidates rs (rid r # seen) message of
                        (res, seen', evs) \<Rightarrow> (res, seen', Predicate_called (rid r) message # evs))))"

definition match_route :: "MessageRuntime \<Rightarrow> envelope \<Rightarrow> (exn + MessageRoute option) \<times> event list" where
  "match_route rt message =
     (case candidates rt message of
        Inl e \<Rightarrow> (Inl e, [])
      | Inr (priority_candidates, normal_candidates) \<Rightarrow>
          (case try_candidates priority_candidates [] message of
             (Inl e, seen, evs) \<Rightarrow> (Inl e, evs)
           | (Inr (Some r), seen, evs) \<Rightarrow> (Inr (Some r), evs)
           | (Inr None, seen, evs) \<Rightarrow>
               (case try_candidates normal_candidates seen message of
                  (res, seen', evs') \<Rightarrow> (res, evs @ evs'))))"

section \<open>The dispatcher\<close>

text \<open>
  \<open>asyncio.gather\<close> over the calls of a list of hooks: every hook is called; when
  some hook raises, the gather raises one of the exceptions raised. The model
  takes the calls in registration order and reports the first failure in that
  order.
\<close>

definition first_failure :: "(exn + unit) list \<Rightarrow> exn + unit" where
  "first_failure rs = (case filter isl rs of [] \<Rightarrow> Inr () | r # rest \<Rightarrow> r)"

definition run_hooks :: "hook_phase \<Rightarrow> Hook list \<Rightarrow> envelope \<Rightarrow> (exn + unit) \<times> event list" where
  "run_hooks ph hooks message =
     (first_failure (map (\<lambda>hook. hook message) hooks),
      map (\<lambda>i. Hook_called ph i message) [0..<length hooks])"

definition run_error_hooks :: "MessageRuntime \<Rightarrow> envelope \<Rightarrow> exn \<Rightarrow> (exn + unit) \<times> event list" where
  "run_error_hooks rt message exc =
     (first_failure (map (\<lambda>hook. hook message exc) (error_hooks rt)),
      map (\<lambda>i. Error_hook_called i message exc) [0..<length (error_hooks rt)])"

text \<open>
  Running a middleware against a continuation \<open>nxt\<close>: every call of \<open>next\<close> runs
  the continuation and adds its calls to the log.
\<close>

primrec run_mw :: "mw_step \<Rightarrow> (envelope \<Rightarrow> (exn + pyval) \<times> event list) \<Rightarrow> (exn + pyval) \<times> event list" where
  "run_mw (Mw_done out) nxt = (out, [])"
| "run_mw (Mw_next m k) nxt =
     (case nxt m of (out, evs) \<Rightarrow>
        (case run_mw (k out) nxt of (out', evs') \<Rightarrow> (out', evs @ evs')))"

text \<open>
  \<^verbatim>\<open>
  def _wrap_with_middlewares(self, handler):
      async def base_handler(message):
          return await _invoke_callable(handler, message, prefer_thread=True)
      wrapped = base_handler
      for middleware in reversed(self._middlewares):
          current = wrapped
          async def wrapper(msg, mw=middleware, nxt=current):
              return await _invoke_callable(mw, msg, nxt, prefer_thread=False)
          wrapped = wrapper
      return wrapped
  \<close>
\<close>

definition base_handler :: "MessageHandler \<Rightarrow> envelope \<Rightarrow> (exn + pyval) \<times> event list" where
  "base_handler h message = (h_call h message, [Handler_called (h_name h) message])"

definition wrapper :: "nat \<times> Middleware \<Rightarrow> (envelope \<Rightarrow> (exn + pyval) \<times> event list)
     \<Rightarrow> envelope \<Rightarrow> (exn + pyval) \<times> event list" where
  "wrapper imw nxt msg =
     (case run_mw (snd imw msg) nxt of
        (out, evs) \<Rightarrow> (out, Mw_enter (fst imw) # evs @ [Mw_leave (fst imw)]))"

definition wrap_with_middlewares :: "MessageRuntime \<Rightarrow> MessageHandler \<Rightarrow> envelope \<Rightarrow> (exn + pyval) \<times> event list" where
  "wrap_with_middlewares rt h =
     fold wrapper (rev (enumerate 0 (middlewares rt))) (base_handler h)"

definition register_middleware :: "Middleware \<Rightarrow> MessageRuntime \<Rightarrow> MessageRuntime" where
  "register_middleware mw rt = rt\<lparr>middlewares := middlewares rt @ [mw]\<rparr>"

definition register_before_hook :: "Hook \<Rightarrow> MessageRuntime \<Rightarrow> MessageRuntime" where
  "register_before_hook hook rt = rt\<lparr>before_hooks := before_hooks rt @ [hook]\<rparr>"

definition register_after_hook :: "Hook \<Rightarrow> MessageRuntime \<Rightarrow> MessageRuntime" where
  "register_after_hook hook rt = rt\<lparr>after_hooks := after_hooks rt @ [hook]\<rparr>"

definition register_error_hook :: "ErrorHook \<Rightarrow> MessageRuntime \<Rightarrow> MessageRuntime" where
  "register_error_hook hook rt = rt\<lparr>error_hooks := error_hooks rt @ [hook]\<rparr>"

text \<open>
  The body of the \<open>try\<close> block of \<open>handle_message\<close>. \<open>Inr None\<close> is the early
  \<open>return None\<close> when no route matches; \<open>Inr (Some result)\<close> is the result of the
  chain.
\<close>

definition dispatch :: "MessageRuntime \<Rightarrow> envelope \<Rightarrow> (exn + pyval option) \<times> event list" where
  "dispatch rt message =
     (case match_route rt message of
        (Inl e, evs) \<Rightarrow> (Inl e, evs)
      | (Inr None, evs) \<Rightarrow> (Inr None, evs)
      | (Inr (Some route), evs) \<Rightarrow>
          (case wrap_with_middlewares rt (handler route) message of
             (Inl e, evs') \<Rightarrow> (Inl e, evs @ evs')
           | (Inr result, evs') \<Rightarrow> (Inr (Some result), evs @ evs')))"

text \<open>
  \<^verbatim>\<open>
  async def handle_message(self, message):
      await self._run_hooks(self._before_hooks, message)
      try:
          route = await self._match_route(message)
          if route is None:
              return None
          handler = self._wrap_with_middlewares(route.handler)
          result = await handler(message)
      except Exception as exc:
          await self._run_error_hooks(message, exc)
          raise MessageProcessingError(message, exc) from exc
      await self._run_hooks(self._after_hooks, message)
      return result
  \<close>
\<close>

definition handle_message :: "MessageRuntime \<Rightarrow> envelope \<Rightarrow> (failure + pyval) \<times> event list" where
  "handle_message rt message =
     (case run_hooks Before (before_hooks rt) message of
        (Inl e, evs0) \<Rightarrow> (Inl (Propagated e), evs0)
      | (Inr u, evs0) \<Rightarrow>
          (case dispatch rt message of
             (Inl exc, evs1) \<Rightarrow>
               if is_Exception exc then
                 (case run_error_hooks rt message exc of
                    (Inl e, evs2) \<Rightarrow> (Inl (Propagated e), evs0 @ evs1 @ evs2)
                  | (Inr u', evs2) \<Rightarrow>
                      (Inl (Wrapped (MessageProcessingError message exc)), evs0 @ evs1 @ evs2))
               else (Inl (Propagated exc), evs0 @ evs1)
           | (Inr None, evs1) \<Rightarrow> (Inr PNone, evs0 @ evs1)
           | (Inr (Some result), evs1) \<Rightarrow>
               (case run_hooks After (after_hooks rt) message of
                  (Inl e, evs3) \<Rightarrow> (Inl (Propagated e), evs0 @ evs1 @ evs3)
                | (Inr u', evs3) \<Rightarrow> (Inr result, evs0 @ evs1 @ evs3))))"

text \<open>
  The default loop of \<open>handle_batch\<close>, with the list \<open>responses\<close> as accumulator:
  \<^verbatim>\<open>
  for message in batch:
      response = await self.handle_message(message)
      if response is not None:
          responses.append(response)
  return responses
  \<close>
\<close>

fun batch_loop :: "MessageRuntime \<Rightarrow> envelope list \<Rightarrow> pyval list \<Rightarrow> event list
     \<Rightarrow> (failure + pyval list) \<times> event list" where
  "batch_loop rt [] responses log = (Inr responses, log)"
| "batch_loop rt (message # rest) responses log =
     (case handle_message rt message of
        (Inl f, evs) \<Rightarrow> (Inl f, log @ evs)
      | (Inr response, evs) \<Rightarrow>
          batch_loop rt rest
            (if response \<noteq> PNone then responses @ [response] else responses) (log @ evs))"

text \<open>
  \<^verbatim>\<open>
  async def handle_batch(self, messages):
      batch = list(messages)
      if not batch:
          return []
      if self._batch_handler is not None:
          result = await _invoke_callable(self._batch_handler, batch, prefer_thread=True)
          return result or []
      responses = []
      for message in batch: ...
      return responses
  \<close>
\<close>

definition handle_batch :: "MessageRuntime \<Rightarrow> envelope list \<Rightarrow> (failure + pyval list) \<times> event list" where
  "handle_batch rt batch =
     (if batch = [] then (Inr [], [])
      else (case batch_handler rt of
              Some bh \<Rightarrow>
                (case bh batch of
                   Inl e \<Rightarrow> (Inl (Propagated e), [Batch_handler_called batch])
                 | Inr result \<Rightarrow>
                     (Inr (case result of None \<Rightarrow> [] | Some rs \<Rightarrow> if rs = [] then [] else rs),
                      [Batch_handler_called batch]))
            | None \<Rightarrow> batch_loop rt batch [] []))"

definition set_batch_handler :: "BatchHandler \<Rightarrow> MessageRuntime \<Rightarrow> MessageRuntime" where
  "set_batch_handler bh rt = rt\<lparr>batch_handler := Some bh\<rparr>"

section \<open>The adapter's bridge from the core\<close>

text \<open>
  \<^verbatim>\<open>
  async def _on_outgoing_from_core(self, envelope):
      platform = envelope.get("platform") or envelope.get("message_info", {}).get("platform")
      if platform and platform != getattr(self, "platform", None):
          return
      await self._send_platform_message(envelope)
  \<close>
  \<open>self_platform\<close> is the adapter's \<open>platform\<close> attribute, a str;
  \<open>send\<close> is the subclass's \<open>_send_platform_message\<close>. The result is what the call
  does and the list of envelopes handed to \<open>send\<close>.
\<close>

definition outgoing_platform :: "envelope \<Rightarrow> exn + pyval" where
  "outgoing_platform envelope =
     (if truthy (dict_get envelope ''platform'') then Inr (dict_get envelope ''platform'')
      else val_get (dict_get_default envelope ''message_info'' (PDict [])) ''platform'')"

definition on_outgoing_from_core :: "string \<Rightarrow> (envelope \<Rightarrow> exn + unit) \<Rightarrow> envelope \<Rightarrow> (exn + unit) \<times> envelope list" where
  "on_outgoing_from_core self_platform send envelope =
     (case outgoing_platform envelope of
        Inl e \<Rightarrow> (Inl e, [])
      | Inr plat \<Rightarrow>
          if truthy plat \<and> plat \<noteq> PStr self_platform then (Inr (), [])
          else (send envelope, [envelope]))"

section \<open>Concrete inputs\<close>


text \<open>A predicate that accepts every envelope, and a handler that returns None.\<close>

definition always_true :: Predicate where
  "always_true message = Inr (PBool True)"

definition named_handler :: "string \<Rightarrow> MessageHandler" where
  "named_handler n = \<lparr>h_name = n, h_call = (\<lambda>message. Inr PNone)\<rparr>"

text \<open>
  A runtime in which \<open>handler1\<close> owns the type \<open>text\<close>, and a second registration for
  the types \<open>image\<close> and \<open>text\<close>, whose set is iterated with \<open>image\<close> first.
\<close>

definition c2_runtime :: MessageRuntime where
  "c2_runtime =
     snd (add_route remdups new_runtime always_true (named_handler ''handler1'') (Some ''handler1'')
            (Mt_str ''text'') None)"

definition c2_call :: "(exn + unit) \<times> MessageRuntime" where
  "c2_call =
     add_route remdups c2_runtime always_true (named_handler ''handler2'') (Some ''handler2'')
       (Mt_list [''image'', ''text'']) None"

text \<open>A \<open>_send_platform_message\<close> that succeeds, and an envelope with two platform tags.\<close>

definition send_ok :: "envelope \<Rightarrow> exn + unit" where
  "send_ok envelope = Inr ()"

definition c8_envelope :: envelope where
  "c8_envelope =
     [(''platform'', PStr ''qq''),
      (''message_info'', PDict [(''platform'', PStr ''discord'')])]"

text \<open>
  Runtimes with one generic route whose handler raises: with an error-hook that
  raises, with a handler that raises a \<open>BaseException\<close>, with two error-hooks that
  return, and with a before-hook that raises.
\<close>

definition raising_handler :: "string \<Rightarrow> exn \<Rightarrow> MessageHandler" where
  "raising_handler n e = \<lparr>h_name = n, h_call = (\<lambda>message. Inl e)\<rparr>"

definition c3_envelope :: envelope where
  "c3_envelope =
     [(''id'', PStr ''test_id_123''),
      (''message_segment'', PDict [(''type'', PStr ''text''), (''data'', PStr ''hello'')])]"



definition c3_runtime_ok :: MessageRuntime where
  "c3_runtime_ok =
     register_error_hook (\<lambda>message exc. Inr ())
       (register_error_hook (\<lambda>message exc. Inr ())
         (snd (add_route remdups new_runtime always_true (raising_handler ''h'' (Exc ''test error''))
               None Mt_none None)))"

definition c10_runtime :: MessageRuntime where
  "c10_runtime =
     register_before_hook (\<lambda>message. Inl (Exc ''before failed''))
       (register_before_hook (\<lambda>message. Inr ()) c3_runtime_ok)"

text \<open>
  An envelope without platform information, and a handler registered through
  \<open>on_message\<close> for the type \<open>text\<close> and the platform \<open>qq\<close>.
\<close>

definition c9_envelope :: envelope where
  "c9_envelope =
     [(''message_info'', PDict [(''message_id'', PStr ''1'')]),
      (''message_segment'', PDict [(''type'', PStr ''text''), (''data'', PStr ''hello'')])]"

definition c9_registration :: "(exn + unit) \<times> MessageRuntime" where
  "c9_registration =
     on_message remdups new_runtime (named_handler ''qq_handler'') (Mt_str ''text'') (Some ''qq'')
       None None"

text \<open>
  A middleware that awaits \<open>next\<close> once, as the runtime expects of a middleware: it
  passes on the message \<open>f msg\<close> and makes its own outcome \<open>g msg out\<close> from the
  outcome \<open>out\<close> of \<open>next\<close>.
\<close>

definition passing_mw :: "(envelope \<Rightarrow> envelope) \<Rightarrow> (envelope \<Rightarrow> exn + pyval \<Rightarrow> exn + pyval) \<Rightarrow> Middleware" where
  "passing_mw f g = (\<lambda>msg. Mw_next (f msg) (\<lambda>out. Mw_done (g msg out)))"

text \<open>
  A runtime with a handler for \<open>text\<close> that returns the message and a handler for
  \<open>image\<close> that returns None; the same runtime with two middlewares.
\<close>

definition echo_handler :: MessageHandler where
  "echo_handler = \<lparr>h_name = ''echo'', h_call = (\<lambda>message. Inr (PDict message))\<rparr>"

definition c6_runtime :: MessageRuntime where
  "c6_runtime =
     snd (add_route remdups
            (snd (add_route remdups new_runtime always_true
                    echo_handler None
                    (Mt_str ''text'') None))
            always_true (named_handler ''silent'') None (Mt_str ''image'') None)"

definition text_message :: envelope where
  "text_message = [(''message_segment'', PDict [(''type'', PStr ''text'')])]"

definition image_message :: envelope where
  "image_message = [(''message_segment'', PDict [(''type'', PStr ''image'')])]"

definition c4_runtime :: MessageRuntime where
  "c4_runtime =
     fold register_middleware
       (map (case_prod passing_mw) [(\<lambda>m. m, \<lambda>m out. out), (\<lambda>m. (''seen'', PBool True) # m, \<lambda>m out. out)])
       c6_runtime"

section \<open>The registry invariant\<close>

text \<open>
  A route holds an explicit message type (an event type) when the type is in its
  set \<open>message_types\<close> (\<open>event_types\<close>).
\<close>

definition holds_type :: "MessageRoute \<Rightarrow> string \<Rightarrow> bool" where
  "holds_type r t = (case message_types r of None \<Rightarrow> False | Some ts \<Rightarrow> t \<in> set ts)"

definition holds_event :: "MessageRoute \<Rightarrow> string \<Rightarrow> bool" where
  "holds_event r e = (case event_types r of None \<Rightarrow> False | Some es \<Rightarrow> e \<in> set es)"

text \<open>
  What registration maintains: the bucket of a key in each index holds the
  registered routes that hold the key, and the identity of a route is its position
  in the list of routes.
\<close>

definition bucket_set :: "(string \<rightharpoonup> MessageRoute list) \<Rightarrow> string \<Rightarrow> MessageRoute set" where
  "bucket_set index k = (case index k of None \<Rightarrow> {} | Some rs \<Rightarrow> set rs)"

definition registry_inv :: "MessageRuntime \<Rightarrow> bool" where
  "registry_inv rt =
     ((\<forall>k. bucket_set (type_routes rt) k = {r \<in> set (routes rt). holds_type r k})
      \<and> (\<forall>k. bucket_set (event_routes rt) k = {r \<in> set (routes rt). holds_event r k})
      \<and> (\<forall>i<length (routes rt). rid (routes rt ! i) = i))"

section \<open>Concrete registries\<close>

text \<open>
  A runtime whose typed route is registered for the empty string, with an envelope
  of that type; a runtime whose event route has a predicate that raises, with an
  envelope that carries the event and the type \<open>text\<close>; a runtime with a generic
  route, a route for \<open>text\<close> and \<open>image\<close>, and a route for \<open>audio\<close> whose predicate
  refuses every envelope.
\<close>

definition raising_predicate :: "exn \<Rightarrow> Predicate" where
  "raising_predicate e message = Inl e"

definition generic_call :: route_call where
  "generic_call =
     \<lparr>c_predicate = always_true, c_handler = named_handler ''fallback'', c_name = None,
      c_message_type = Mt_none, c_event_types = None\<rparr>"

definition c1_runtime :: MessageRuntime where
  "c1_runtime =
     register_all remdups
       [\<lparr>c_predicate = always_true, c_handler = named_handler ''typed'', c_name = None,
         c_message_type = Mt_str [], c_event_types = None\<rparr>,
        generic_call]
       new_runtime"

definition c1_envelope :: envelope where
  "c1_envelope = [(''message_segment'', PDict [(''type'', PStr [])])]"

definition c1_runtime_raising :: MessageRuntime where
  "c1_runtime_raising =
     register_all remdups
       [\<lparr>c_predicate = raising_predicate (Exc ''boom''), c_handler = named_handler ''on_notice'',
         c_name = None, c_message_type = Mt_none, c_event_types = Some [''notice'']\<rparr>,
        \<lparr>c_predicate = always_true, c_handler = named_handler ''typed'', c_name = None,
         c_message_type = Mt_str ''text'', c_event_types = None\<rparr>,
        generic_call]
       new_runtime"

definition c1_envelope_notice :: envelope where
  "c1_envelope_notice =
     [(''event_type'', PStr ''notice''),
      (''message_segment'', PDict [(''type'', PStr ''text'')])]"

definition always_false :: Predicate where
  "always_false message = Inr (PBool False)"

definition c1_calls :: "route_call list" where
  "c1_calls =
     [generic_call,
      \<lparr>c_predicate = always_true, c_handler = named_handler ''typed'', c_name = None,
       c_message_type = Mt_list [''text'', ''image''], c_event_types = None\<rparr>,
      \<lparr>c_predicate = always_false, c_handler = named_handler ''muted'', c_name = None,
       c_message_type = Mt_str ''audio'', c_event_types = None\<rparr>]"

definition c1_runtime_typed :: MessageRuntime where
  "c1_runtime_typed = register_all remdups c1_calls new_runtime"

definition audio_message :: envelope where
  "audio_message = [(''message_segment'', PDict [(''type'', PStr ''audio'')])]"

section \<open>Segment-type extraction: results\<close>




section \<open>Registration: results\<close>

lemma c2_runtime_eval:
  "explicit_type_handlers c2_runtime = [''text'' \<mapsto> ''handler1'']
   \<and> length (routes c2_runtime) = 1
   \<and> type_routes c2_runtime ''image'' = None"
  by (simp add: c2_runtime_def add_route_def insert_route_def message_type_sets_def new_runtime_def
        handler_name_of_def bucket_append_def Let_def)

text \<open>
  C2 at the failing input: the second registration raises on \<open>text\<close>, but the loop
  has already written \<open>image\<close> into the owner map. No route holds \<open>image\<close>, and a
  later registration of \<open>image\<close> is refused.
\<close>

theorem C2_owner_map_written_before_raise:
  "fst c2_call = Inl (Exc ''ValueError'')
   \<and> explicit_type_handlers c2_runtime ''image'' = None
   \<and> explicit_type_handlers (snd c2_call) ''image'' = Some ''handler2''
   \<and> routes (snd c2_call) = routes c2_runtime
   \<and> type_routes (snd c2_call) ''image'' = None
   \<and> fst (add_route remdups (snd c2_call) always_true (named_handler ''handler3'') (Some ''handler3'')
             (Mt_str ''image'') None) = Inl (Exc ''ValueError'')"
  using c2_runtime_eval
  by (simp add: c2_call_def add_route_def insert_route_def message_type_sets_def handler_name_of_def Let_def)






section \<open>The adapter's bridge: results\<close>

text \<open>
  C8, as stated, fails: an envelope whose \<open>message_info.platform\<close> mismatches the
  adapter's platform is sent when its top-level \<open>platform\<close> matches.
\<close>

theorem C8_counterexample:
  "val_get (dict_get c8_envelope ''message_info'') ''platform'' = Inr (PStr ''discord'')
   \<and> PStr ''discord'' \<noteq> PStr ''qq''
   \<and> on_outgoing_from_core ''qq'' send_ok c8_envelope = (Inr (), [c8_envelope])"
  by (simp add: c8_envelope_def on_outgoing_from_core_def outgoing_platform_def val_get_def
        dict_get_def dict_get_default_def send_ok_def)

text \<open>
  C8, amended: the tag that counts is the top-level \<open>platform\<close> when it is truthy,
  else \<open>message_info.platform\<close>. When that tag is truthy and differs from the
  adapter's platform the envelope is ignored; otherwise \<open>_send_platform_message\<close>
  is invoked once, with the envelope.
\<close>

theorem C8_on_outgoing_from_core:
  assumes "map_of envelope ''message_info'' = None \<and> info = []
           \<or> map_of envelope ''message_info'' = Some (PDict info)"
    and "tag = py_or (dict_get envelope ''platform'') (dict_get info ''platform'')"
  shows "on_outgoing_from_core p send envelope =
           (if truthy tag \<and> tag \<noteq> PStr p then (Inr (), []) else (send envelope, [envelope]))"
  using assms
  by (auto simp: on_outgoing_from_core_def outgoing_platform_def val_get_def py_or_def
        dict_get_def dict_get_default_def)

theorem C8_on_outgoing_from_core_witness:
  "on_outgoing_from_core ''qq'' send_ok [(''message_info'', PDict [(''platform'', PStr ''discord'')])]
     = (Inr (), [])
   \<and> on_outgoing_from_core ''qq'' send_ok [(''message_info'', PDict [(''platform'', PStr ''qq'')])]
     = (Inr (), [[(''message_info'', PDict [(''platform'', PStr ''qq'')])]])
   \<and> on_outgoing_from_core ''qq'' send_ok [(''id'', PStr ''7'')] = (Inr (), [[(''id'', PStr ''7'')]])"
proof -
  have "on_outgoing_from_core ''qq'' send_ok [(''message_info'', PDict [(''platform'', PStr ''discord'')])]
     = (Inr (), [])"
    using C8_on_outgoing_from_core [of "[(''message_info'', PDict [(''platform'', PStr ''discord'')])]"
        "[(''platform'', PStr ''discord'')]" "PStr ''discord''" "''qq''" send_ok]
    by (simp add: py_or_def dict_get_def dict_get_default_def)
  moreover have "on_outgoing_from_core ''qq'' send_ok [(''message_info'', PDict [(''platform'', PStr ''qq'')])]
     = (Inr (), [[(''message_info'', PDict [(''platform'', PStr ''qq'')])]])"
    using C8_on_outgoing_from_core [of "[(''message_info'', PDict [(''platform'', PStr ''qq'')])]"
        "[(''platform'', PStr ''qq'')]" "PStr ''qq''" "''qq''" send_ok]
    by (simp add: py_or_def dict_get_def dict_get_default_def send_ok_def)
  moreover have "on_outgoing_from_core ''qq'' send_ok [(''id'', PStr ''7'')] = (Inr (), [[(''id'', PStr ''7'')]])"
    using C8_on_outgoing_from_core [of "[(''id'', PStr ''7'')]" "[]" PNone "''qq''" send_ok]
    by (simp add: py_or_def dict_get_def dict_get_default_def send_ok_def)
  ultimately show ?thesis by simp
qed

section \<open>The dispatcher: results\<close>

lemma first_failure_Inl:
  assumes "r \<in> set rs" and "isl r"
  shows "\<exists>e. first_failure rs = Inl e \<and> Inl e \<in> set rs"
proof -
  from assms have "filter isl rs \<noteq> []"
    by (auto simp: filter_empty_conv)
  then obtain r' rest where f: "filter isl rs = r' # rest"
    by (cases "filter isl rs") auto
  then have "r' \<in> set (filter isl rs)" by simp
  then have "r' \<in> set rs" and i: "isl r'" by auto
  from i obtain e where "r' = Inl e" by (cases r') auto
  with f \<open>r' \<in> set rs\<close> show ?thesis
    by (auto simp: first_failure_def)
qed





text \<open>
  C10: when a before-hook raises, \<open>handle_message\<close> fails with an exception that a
  before-hook raised, as it was raised (not wrapped), and the only calls made are
  those of the before-hooks: no predicate, middleware, handler or error-hook runs.
\<close>

theorem C10_before_hook_exception_propagates:
  assumes "hook \<in> set (before_hooks rt)" and "hook message = Inl e0"
  shows "\<exists>e. (\<exists>hk\<in>set (before_hooks rt). hk message = Inl e)
           \<and> handle_message rt message
               = (Inl (Propagated e),
                  map (\<lambda>i. Hook_called Before i message) [0..<length (before_hooks rt)])"
proof -
  have "hook message \<in> set (map (\<lambda>hk. hk message) (before_hooks rt))"
    using assms(1) by simp
  moreover have "isl (hook message)"
    using assms(2) by simp
  ultimately obtain e where e: "first_failure (map (\<lambda>hk. hk message) (before_hooks rt)) = Inl e"
    and m: "Inl e \<in> set (map (\<lambda>hk. hk message) (before_hooks rt))"
    using first_failure_Inl by blast
  from m have "\<exists>hk\<in>set (before_hooks rt). hk message = Inl e" by auto
  moreover have "handle_message rt message
               = (Inl (Propagated e),
                  map (\<lambda>i. Hook_called Before i message) [0..<length (before_hooks rt)])"
    by (simp add: handle_message_def run_hooks_def e)
  ultimately show ?thesis by blast
qed


lemmas runtime_eval =
  new_runtime_def add_route_def insert_route_def message_type_sets_def handler_name_of_def bucket_append_def
  register_error_hook_def register_before_hook_def register_after_hook_def register_middleware_def
  Let_def







theorem C10_before_hook_exception_propagates_witness:
  "handle_message c10_runtime c3_envelope
     = (Inl (Propagated (Exc ''before failed'')),
        [Hook_called Before 0 c3_envelope, Hook_called Before 1 c3_envelope])"
proof -
  have h: "before_hooks c10_runtime = [\<lambda>message. Inr (), \<lambda>message. Inl (Exc ''before failed'')]"
    by (simp add: c10_runtime_def c3_runtime_ok_def runtime_eval)
  have m: "(\<lambda>message. Inl (Exc ''before failed'')) \<in> set (before_hooks c10_runtime)"
    by (simp add: h)
  have u: "[0..<2] = [0, Suc 0]"
    by (simp add: upt_rec)
  from C10_before_hook_exception_propagates
         [of "\<lambda>message. Inl (Exc ''before failed'')" c10_runtime c3_envelope "Exc ''before failed''"] m
  obtain e where "\<exists>hk\<in>set (before_hooks c10_runtime). hk c3_envelope = Inl e"
    and r: "handle_message c10_runtime c3_envelope
               = (Inl (Propagated e),
                  map (\<lambda>i. Hook_called Before i c3_envelope) [0..<length (before_hooks c10_runtime)])"
    by auto
  then have "e = Exc ''before failed''"
    by (auto simp: h)
  with r show ?thesis
    by (simp add: h u)
qed

section \<open>The decorator \<open>on_message\<close>: results\<close>

lemma add_route_cases:
  obtains (failed) e owners where
      "add_route iter_order rt pred h nm mt ets = (Inl e, rt\<lparr>explicit_type_handlers := owners\<rparr>)"
  | (added) mts single owners where "message_type_sets iter_order mt = Inr (mts, single)"
      and "add_route iter_order rt pred h nm mt ets =
             (Inr (),
              insert_route
                \<lparr>rid = length (routes rt), predicate = pred, handler = h, name = nm,
                 message_type = single, message_types = mts,
                 event_types = map_option iter_order ets\<rparr>
                (rt\<lparr>explicit_type_handlers := owners\<rparr>))"
proof (cases "message_type_sets iter_order mt")
  case (Inl e)
  then have "add_route iter_order rt pred h nm mt ets
               = (Inl e, rt\<lparr>explicit_type_handlers := explicit_type_handlers rt\<rparr>)"
    by (simp add: add_route_def)
  then show ?thesis by (rule failed)
next
  case (Inr p)
  obtain mts single where p: "p = (mts, single)" by (cases p)
  define c where "c = (case mts of
                   None \<Rightarrow> (Inr (), explicit_type_handlers rt)
                 | Some ts \<Rightarrow> claim_types ts (handler_name_of nm h) (explicit_type_handlers rt))"
  obtain res owners where c': "c = (res, owners)" by (cases c)
  have a: "add_route iter_order rt pred h nm mt ets =
             (case c of
                (Inl e, owners) \<Rightarrow> (Inl e, rt\<lparr>explicit_type_handlers := owners\<rparr>)
              | (Inr u, owners) \<Rightarrow>
               (Inr (),
                insert_route
                  \<lparr>rid = length (routes rt), predicate = pred, handler = h, name = nm,
                   message_type = single, message_types = mts,
                   event_types = map_option iter_order ets\<rparr>
                  (rt\<lparr>explicit_type_handlers := owners\<rparr>)))"
    unfolding add_route_def c_def Inr p by simp
  show ?thesis
  proof (cases res)
    case (Inl e)
    with a c' have "add_route iter_order rt pred h nm mt ets
                      = (Inl e, rt\<lparr>explicit_type_handlers := owners\<rparr>)"
      by simp
    then show ?thesis by (rule failed)
  next
    case (Inr u)
    with a c' have "add_route iter_order rt pred h nm mt ets =
             (Inr (),
              insert_route
                \<lparr>rid = length (routes rt), predicate = pred, handler = h, name = nm,
                 message_type = single, message_types = mts,
                 event_types = map_option iter_order ets\<rparr>
                (rt\<lparr>explicit_type_handlers := owners\<rparr>))"
      by simp
    with \<open>message_type_sets iter_order mt = Inr p\<close> p show ?thesis
      using added by blast
  qed
qed

lemma routes_insert_route: "routes (insert_route r rt) = routes rt @ [r]"
  by (simp add: insert_route_def)

lemma add_route_returns:
  assumes "add_route iter_order rt pred h nm mt ets = (Inr (), rt')"
  shows "\<exists>mts single.
           message_type_sets iter_order mt = Inr (mts, single)
           \<and> routes rt' = routes rt @
                 [\<lparr>rid = length (routes rt), predicate = pred, handler = h, name = nm,
                   message_type = single, message_types = mts,
                   event_types = map_option iter_order ets\<rparr>]"
proof (cases rule: add_route_cases [of iter_order rt pred h nm mt ets])
  case (failed e owners)
  with assms show ?thesis by simp
next
  case (added mts single owners)
  with assms have "rt' = insert_route
                \<lparr>rid = length (routes rt), predicate = pred, handler = h, name = nm,
                 message_type = single, message_types = mts,
                 event_types = map_option iter_order ets\<rparr>
                (rt\<lparr>explicit_type_handlers := owners\<rparr>)"
    by simp
  then have "routes rt' = routes rt @
                 [\<lparr>rid = length (routes rt), predicate = pred, handler = h, name = nm,
                   message_type = single, message_types = mts,
                   event_types = map_option iter_order ets\<rparr>]"
    by (simp add: routes_insert_route)
  with added(1) show ?thesis by blast
qed

text \<open>
  C9: for a route registered through \<open>on_message\<close> with the platform filter \<open>p\<close>, an
  envelope with no top-level \<open>platform\<close> and no \<open>message_info.platform\<close> passes the
  platform check, and the route's predicate gives on it what the same predicate
  without the platform filter gives: true when the message-type check passes and
  there is no custom predicate.
\<close>

theorem C9_platform_filter_passes_untagged:
  assumes "on_message iter_order rt func mt (Some p) custom nm = (Inr (), rt')"
    and "message_type_sets iter_order mt = Inr (mts, single)"
    and "map_of message ''platform'' = None"
    and "map_of message ''message_info'' = None
         \<or> (\<exists>info. map_of message ''message_info'' = Some (PDict info) \<and> map_of info ''platform'' = None)"
  shows "platform_check (Some p) message = Inr True
         \<and> predicate (last (routes rt')) message = combined_predicate mts None custom message
         \<and> (type_check mts message = Inr True \<and> custom = None
              \<longrightarrow> predicate (last (routes rt')) message = Inr (PBool True))"
proof -
  have pc: "platform_check (Some p) message = Inr True"
    using assms(3,4)
    by (auto simp: platform_check_def val_get_def dict_get_def dict_get_default_def not_none_or_def)
  have pn: "platform_check None message = Inr True"
    by (simp add: platform_check_def)
  from assms(1,2) have "add_route iter_order rt (combined_predicate mts (Some p) custom) func nm mt None
                          = (Inr (), rt')"
    by (simp add: on_message_def)
  from add_route_returns [OF this]
  have pr: "predicate (last (routes rt')) = combined_predicate mts (Some p) custom"
    by auto
  have eq: "combined_predicate mts (Some p) custom message = combined_predicate mts None custom message"
    using pc pn by (simp add: combined_predicate_def split: sum.splits)
  have "type_check mts message = Inr True \<and> custom = None
              \<longrightarrow> combined_predicate mts None custom message = Inr (PBool True)"
    using pn by (simp add: combined_predicate_def)
  with pc pr eq show ?thesis by auto
qed

theorem C9_platform_filter_passes_untagged_witness:
  "fst c9_registration = Inr ()
   \<and> platform_check (Some ''qq'') c9_envelope = Inr True
   \<and> predicate (last (routes (snd c9_registration))) c9_envelope = Inr (PBool True)"
proof -
  have f: "fst c9_registration = Inr ()"
    by (simp add: c9_registration_def on_message_def add_route_def message_type_sets_def
          new_runtime_def handler_name_of_def)
  then have "c9_registration = (Inr (), snd c9_registration)"
    by (simp add: prod_eq_iff)
  then have r: "on_message remdups new_runtime (named_handler ''qq_handler'') (Mt_str ''text'') (Some ''qq'')
             None None = (Inr (), snd c9_registration)"
    unfolding c9_registration_def .
  have s: "message_type_sets remdups (Mt_str ''text'') = Inr (Some [''text''], Some ''text'')"
    by (simp add: message_type_sets_def)
  have a: "map_of c9_envelope ''platform'' = None"
    by (simp add: c9_envelope_def)
  have b: "map_of c9_envelope ''message_info'' = None
         \<or> (\<exists>info. map_of c9_envelope ''message_info'' = Some (PDict info) \<and> map_of info ''platform'' = None)"
    by (simp add: c9_envelope_def)
  have c: "type_check (Some [''text'']) c9_envelope = Inr True"
    by (simp add: c9_envelope_def type_check_def not_in_str_set_def extract_segment_type_def
          py_or_def dict_get_def dict_get_default_def)
  note t = C9_platform_filter_passes_untagged [OF r s a b]
  from t have "platform_check (Some ''qq'') c9_envelope = Inr True" by (rule conjunct1)
  moreover from t have "type_check (Some [''text'']) c9_envelope = Inr True \<and> (None :: Predicate option) = None
      \<longrightarrow> predicate (last (routes (snd c9_registration))) c9_envelope = Inr (PBool True)"
    by (elim conjE)
  with c have "predicate (last (routes (snd c9_registration))) c9_envelope = Inr (PBool True)"
    by fast
  ultimately show ?thesis using f by simp
qed

section \<open>Batches and middlewares: results\<close>

lemma batch_loop_all_return:
  assumes "\<forall>x\<in>set xs. \<exists>r. fst (handle_message rt x) = Inr r"
  shows "batch_loop rt xs responses log
           = (Inr (responses @ filter (\<lambda>r. r \<noteq> PNone) (map (\<lambda>x. projr (fst (handle_message rt x))) xs)),
              log @ concat (map (\<lambda>x. snd (handle_message rt x)) xs))"
  using assms
proof (induction xs arbitrary: responses log)
  case Nil
  then show ?case by simp
next
  case (Cons x xs)
  then obtain r where r: "fst (handle_message rt x) = Inr r" by auto
  then obtain evs where h: "handle_message rt x = (Inr r, evs)"
    by (cases "handle_message rt x") auto
  have "\<forall>x\<in>set xs. \<exists>r. fst (handle_message rt x) = Inr r"
    using Cons.prems by simp
  from Cons.IH [OF this] show ?case
    by (simp add: h)
qed

text \<open>
  C6: \<open>handle_batch([])\<close> returns \<open>[]\<close> and calls nothing; with a custom batch
  handler, a non-empty batch returns what the handler yields, None read as \<open>[]\<close>,
  and only the batch handler is called; without one, when \<open>handle_message\<close>
  returns on every message, the result is the list of its results that are not
  None, in input order, and the calls are those of the messages one after the
  other.
\<close>

theorem C6_handle_batch:
  "handle_batch rt [] = (Inr [], [])
   \<and> (batch_handler rt = Some bh \<and> xs \<noteq> [] \<and> bh xs = Inr result
        \<longrightarrow> handle_batch rt xs
              = (Inr (case result of None \<Rightarrow> [] | Some rs \<Rightarrow> rs), [Batch_handler_called xs]))
   \<and> (batch_handler rt = None \<and> (\<forall>x\<in>set xs. \<exists>r. fst (handle_message rt x) = Inr r)
        \<longrightarrow> handle_batch rt xs
              = (Inr (filter (\<lambda>r. r \<noteq> PNone) (map (\<lambda>x. projr (fst (handle_message rt x))) xs)),
                 concat (map (\<lambda>x. snd (handle_message rt x)) xs)))"
proof (intro conjI impI)
  show "handle_batch rt [] = (Inr [], [])"
    by (simp add: handle_batch_def)
next
  assume "batch_handler rt = Some bh \<and> xs \<noteq> [] \<and> bh xs = Inr result"
  then show "handle_batch rt xs
              = (Inr (case result of None \<Rightarrow> [] | Some rs \<Rightarrow> rs), [Batch_handler_called xs])"
    by (auto simp: handle_batch_def split: option.splits)
next
  assume a: "batch_handler rt = None \<and> (\<forall>x\<in>set xs. \<exists>r. fst (handle_message rt x) = Inr r)"
  then have "batch_loop rt xs [] []
           = (Inr ([] @ filter (\<lambda>r. r \<noteq> PNone) (map (\<lambda>x. projr (fst (handle_message rt x))) xs)),
              [] @ concat (map (\<lambda>x. snd (handle_message rt x)) xs))"
    using batch_loop_all_return by blast
  with a show "handle_batch rt xs
              = (Inr (filter (\<lambda>r. r \<noteq> PNone) (map (\<lambda>x. projr (fst (handle_message rt x))) xs)),
                 concat (map (\<lambda>x. snd (handle_message rt x)) xs))"
    by (cases xs) (simp_all add: handle_batch_def)
qed

lemma run_mw_passing:
  "run_mw (passing_mw f g msg) nxt = (g msg (fst (nxt (f msg))), snd (nxt (f msg)))"
  by (simp add: passing_mw_def split: prod.splits)

lemma wrapper_passing:
  "wrapper (i, passing_mw f g) nxt msg
     = (g msg (fst (nxt (f msg))), Mw_enter i # snd (nxt (f msg)) @ [Mw_leave i])"
  by (simp add: wrapper_def run_mw_passing)

lemma chain_log:
  "snd (foldr wrapper (enumerate k (map (case_prod passing_mw) fgs)) (base_handler h) msg)
     = map Mw_enter [k..<k + length fgs]
       @ [Handler_called (h_name h) (fold (\<lambda>fg. fst fg) fgs msg)]
       @ map Mw_leave (rev [k..<k + length fgs])"
proof (induction fgs arbitrary: k msg)
  case Nil
  then show ?case by (simp add: base_handler_def)
next
  case (Cons fg fgs)
  obtain f g where fg: "fg = (f, g)" by (cases fg)
  have u: "[k..<k + length (fg # fgs)] = k # [Suc k..<Suc k + length fgs]"
    by (simp add: upt_conv_Cons del: upt_Suc)
  show ?case
    unfolding u
    by (simp add: fg wrapper_passing Cons.IH del: upt_Suc)
qed

lemma middlewares_fold_register:
  "middlewares (fold register_middleware mws rt) = middlewares rt @ mws"
  by (induction mws arbitrary: rt) (simp_all add: register_middleware_def)

lemma match_route_fold_register:
  "match_route (fold register_middleware mws rt) message = match_route rt message"
proof -
  have "routes (fold register_middleware mws rt) = routes rt
        \<and> type_routes (fold register_middleware mws rt) = type_routes rt
        \<and> event_routes (fold register_middleware mws rt) = event_routes rt"
    by (induction mws arbitrary: rt) (simp_all add: register_middleware_def)
  then have "candidates (fold register_middleware mws rt) message = candidates rt message"
    by (simp add: candidates_def cong: sum.case_cong)
  then show ?thesis
    by (simp add: match_route_def)
qed

text \<open>
  C4: when the registered middlewares \<open>m1..mn\<close> each await \<open>next\<close> once and the
  envelope matches a route, the chain enters the middlewares in registration
  order, then calls the handler, then leaves the middlewares in reverse order.
\<close>

theorem C4_onion_order:
  assumes "middlewares rt0 = []"
    and "rt = fold register_middleware (map (case_prod passing_mw) fgs) rt0"
    and "match_route rt message = (Inr (Some route), evs)"
  shows "snd (dispatch rt message)
           = evs @ map Mw_enter [0..<length fgs]
             @ [Handler_called (h_name (handler route)) (fold (\<lambda>fg. fst fg) fgs message)]
             @ map Mw_leave (rev [0..<length fgs])"
proof -
  have m: "middlewares rt = map (case_prod passing_mw) fgs"
    using assms(1,2) by (simp add: middlewares_fold_register)
  have "snd (wrap_with_middlewares rt (handler route) message)
          = map Mw_enter [0..<length fgs]
             @ [Handler_called (h_name (handler route)) (fold (\<lambda>fg. fst fg) fgs message)]
             @ map Mw_leave (rev [0..<length fgs])"
    using chain_log [of 0 fgs "handler route" message]
    by (simp add: wrap_with_middlewares_def m foldr_conv_fold)
  moreover obtain out evs' where w: "wrap_with_middlewares rt (handler route) message = (out, evs')"
    by (cases "wrap_with_middlewares rt (handler route) message")
  ultimately show ?thesis
    by (cases out) (simp_all add: dispatch_def assms(3))
qed

lemma c6_runtime_fields:
  "routes c6_runtime =
     [\<lparr>rid = 0, predicate = always_true, handler = echo_handler, name = None,
       message_type = Some ''text'', message_types = Some [''text''], event_types = None\<rparr>,
      \<lparr>rid = 1, predicate = always_true, handler = named_handler ''silent'', name = None,
       message_type = Some ''image'', message_types = Some [''image''], event_types = None\<rparr>]"
  "type_routes c6_runtime ''text'' =
     Some [\<lparr>rid = 0, predicate = always_true, handler = echo_handler, name = None,
       message_type = Some ''text'', message_types = Some [''text''], event_types = None\<rparr>]"
  "type_routes c6_runtime ''image'' =
     Some [\<lparr>rid = 1, predicate = always_true, handler = named_handler ''silent'', name = None,
       message_type = Some ''image'', message_types = Some [''image''], event_types = None\<rparr>]"
  "before_hooks c6_runtime = []" "after_hooks c6_runtime = []" "error_hooks c6_runtime = []"
  "middlewares c6_runtime = []" "batch_handler c6_runtime = None"
  by (simp_all add: c6_runtime_def runtime_eval echo_handler_def named_handler_def)

lemma c6_match_text:
  "match_route c6_runtime text_message = (Inr (Some (routes c6_runtime ! 0)), [Predicate_called 0 text_message])"
  by (simp add: match_route_def candidates_def extract_event_type_def extract_segment_type_def
        bucket_of_def py_or_def dict_get_def dict_get_default_def val_get_def val_get_default_def
        text_message_def c6_runtime_fields always_true_def)

lemma c6_match_image:
  "match_route c6_runtime image_message = (Inr (Some (routes c6_runtime ! 1)), [Predicate_called 1 image_message])"
  by (simp add: match_route_def candidates_def extract_event_type_def extract_segment_type_def
        bucket_of_def py_or_def dict_get_def dict_get_default_def val_get_def val_get_default_def
        image_message_def c6_runtime_fields always_true_def)

lemma c6_handle_text:
  "handle_message c6_runtime text_message
     = (Inr (PDict text_message), [Predicate_called 0 text_message, Handler_called ''echo'' text_message])"
  by (simp add: handle_message_def run_hooks_def first_failure_def dispatch_def c6_match_text
        wrap_with_middlewares_def base_handler_def c6_runtime_fields echo_handler_def)

lemma c6_handle_image:
  "handle_message c6_runtime image_message
     = (Inr PNone, [Predicate_called 1 image_message, Handler_called ''silent'' image_message])"
  by (simp add: handle_message_def run_hooks_def first_failure_def dispatch_def c6_match_image
        wrap_with_middlewares_def base_handler_def c6_runtime_fields named_handler_def)

theorem C6_handle_batch_witness:
  "handle_batch (set_batch_handler (\<lambda>xs. Inr None) c6_runtime) [text_message]
     = (Inr [], [Batch_handler_called [text_message]])
   \<and> handle_batch c6_runtime [image_message, text_message, image_message]
     = (Inr [PDict text_message],
        [Predicate_called 1 image_message, Handler_called ''silent'' image_message,
         Predicate_called 0 text_message, Handler_called ''echo'' text_message,
         Predicate_called 1 image_message, Handler_called ''silent'' image_message])"
proof -
  have "handle_batch (set_batch_handler (\<lambda>xs. Inr None) c6_runtime) [text_message]
     = (Inr [], [Batch_handler_called [text_message]])"
    using C6_handle_batch [of "set_batch_handler (\<lambda>xs. Inr None) c6_runtime" "\<lambda>xs. Inr None"
        "[text_message]" None]
    by (simp add: set_batch_handler_def)
  moreover have "handle_batch c6_runtime [image_message, text_message, image_message]
     = (Inr [PDict text_message],
        [Predicate_called 1 image_message, Handler_called ''silent'' image_message,
         Predicate_called 0 text_message, Handler_called ''echo'' text_message,
         Predicate_called 1 image_message, Handler_called ''silent'' image_message])"
    using C6_handle_batch [of c6_runtime _ "[image_message, text_message, image_message]"]
    by (simp add: c6_runtime_fields c6_handle_text c6_handle_image)
  ultimately show ?thesis by simp
qed

theorem C4_onion_order_witness:
  "snd (dispatch c4_runtime text_message)
     = [Predicate_called 0 text_message, Mw_enter 0, Mw_enter 1,
        Handler_called ''echo'' ((''seen'', PBool True) # text_message),
        Mw_leave 1, Mw_leave 0]"
proof -
  have m: "match_route c4_runtime text_message
             = (Inr (Some (routes c6_runtime ! 0)), [Predicate_called 0 text_message])"
    unfolding c4_runtime_def by (simp only: match_route_fold_register c6_match_text)
  have u: "[0..<2] = [0, Suc 0]"
    by (simp add: upt_rec)
  from C4_onion_order [OF c6_runtime_fields(7) c4_runtime_def m] u
  show ?thesis
    by (simp add: c6_runtime_fields echo_handler_def)
qed

section \<open>The matcher: results\<close>

lemma bucket_set_append:
  "bucket_set (bucket_append r k' index) k
     = (if k = k' then insert r (bucket_set index k) else bucket_set index k)"
  by (simp add: bucket_set_def bucket_append_def split: option.splits)

lemma bucket_set_fold:
  "bucket_set (fold (bucket_append r) ks index) k
     = (if k \<in> set ks then insert r (bucket_set index k) else bucket_set index k)"
  by (induction ks arbitrary: index) (auto simp: bucket_set_append)

lemma registry_inv_new: "registry_inv new_runtime"
  by (simp add: registry_inv_def new_runtime_def bucket_set_def)

lemma registry_inv_owners:
  "registry_inv (rt\<lparr>explicit_type_handlers := owners\<rparr>) = registry_inv rt"
  by (simp add: registry_inv_def)

lemma registry_inv_insert_route:
  assumes "registry_inv rt" and "rid r = length (routes rt)"
  shows "registry_inv (insert_route r rt)"
proof -
  have t: "\<forall>k. bucket_set (type_routes (insert_route r rt)) k
              = {x \<in> set (routes (insert_route r rt)). holds_type x k}"
    using assms(1)
    by (cases "message_types r")
       (auto simp: registry_inv_def insert_route_def bucket_set_fold holds_type_def)
  have e: "\<forall>k. bucket_set (event_routes (insert_route r rt)) k
              = {x \<in> set (routes (insert_route r rt)). holds_event x k}"
    using assms(1)
    by (cases "event_types r")
       (auto simp: registry_inv_def insert_route_def bucket_set_fold holds_event_def)
  have i: "\<forall>i<length (routes (insert_route r rt)). rid (routes (insert_route r rt) ! i) = i"
    using assms
    by (auto simp: registry_inv_def insert_route_def nth_append less_Suc_eq)
  from t e i show ?thesis
    unfolding registry_inv_def by blast
qed

lemma registry_inv_add_route:
  assumes "registry_inv rt"
  shows "registry_inv (snd (add_route iter_order rt pred h nm mt ets))"
proof (cases rule: add_route_cases [of iter_order rt pred h nm mt ets])
  case (failed e owners)
  with assms show ?thesis by (simp add: registry_inv_owners)
next
  case (added mts single owners)
  have "registry_inv (rt\<lparr>explicit_type_handlers := owners\<rparr>)"
    using assms by (simp add: registry_inv_owners)
  then have "registry_inv (insert_route
                \<lparr>rid = length (routes rt), predicate = pred, handler = h, name = nm,
                 message_type = single, message_types = mts,
                 event_types = map_option iter_order ets\<rparr>
                (rt\<lparr>explicit_type_handlers := owners\<rparr>))"
    by (rule registry_inv_insert_route) simp
  with added(2) show ?thesis by simp
qed

lemma registry_inv_register_all:
  "registry_inv rt \<Longrightarrow> registry_inv (register_all iter_order cs rt)"
  unfolding register_all_def
  by (induction cs arbitrary: rt) (simp_all add: apply_call_def registry_inv_add_route)

lemma rid_inj:
  assumes "registry_inv rt"
  shows "inj_on rid (set (routes rt))"
proof (rule inj_onI)
  fix x y
  assume "x \<in> set (routes rt)" and "y \<in> set (routes rt)" and eq: "rid x = rid y"
  then obtain i j where i: "i < length (routes rt)" "routes rt ! i = x"
    and j: "j < length (routes rt)" "routes rt ! j = y"
    by (auto simp: in_set_conv_nth)
  from assms i j have "rid x = i" and "rid y = j"
    by (auto simp: registry_inv_def)
  with eq i j show "x = y" by simp
qed

lemma bucket_of_member:
  assumes "bucket_of key index = Inr rs" and "r \<in> set rs"
  shows "\<exists>s. key = PStr s \<and> r \<in> bucket_set index s"
  using assms
  by (cases key) (auto simp: bucket_of_def bucket_set_def split: if_splits option.splits)

lemma bucket_of_str:
  assumes "bucket_of (PStr s) index = Inr rs" and "s \<noteq> []"
  shows "set rs = bucket_set index s"
  using assms
  by (auto simp: bucket_of_def bucket_set_def split: option.splits)

lemma candidates_Inr:
  assumes "candidates rt message = Inr (prio, normal)"
  obtains etype by_event by_type where "extract_event_type message = Inr etype"
    and "bucket_of etype (event_routes rt) = Inr by_event"
    and "bucket_of (extract_segment_type message) (type_routes rt) = Inr by_type"
    and "prio = by_event @ by_type" and "normal = filter is_generic (routes rt)"
  using assms
  by (auto simp: candidates_def split: sum.splits)

lemma priority_not_generic:
  assumes "registry_inv rt" and "candidates rt message = Inr (prio, normal)" and "r \<in> set prio"
  shows "r \<in> set (routes rt) \<and> \<not> is_generic r"
proof -
  from assms(2) obtain etype by_event by_type where
      be: "bucket_of etype (event_routes rt) = Inr by_event"
      and bt: "bucket_of (extract_segment_type message) (type_routes rt) = Inr by_type"
      and p: "prio = by_event @ by_type"
    by (rule candidates_Inr)
  from assms(3) p consider "r \<in> set by_event" | "r \<in> set by_type" by auto
  then show ?thesis
  proof cases
    case 1
    from bucket_of_member [OF be 1] obtain s where "r \<in> bucket_set (event_routes rt) s" by blast
    with assms(1) have "r \<in> set (routes rt)" and "holds_event r s"
      by (auto simp: registry_inv_def)
    then show ?thesis
      by (auto simp: holds_event_def is_generic_def split: option.splits)
  next
    case 2
    from bucket_of_member [OF bt 2] obtain s where "r \<in> bucket_set (type_routes rt) s" by blast
    with assms(1) have "r \<in> set (routes rt)" and "holds_type r s"
      by (auto simp: registry_inv_def)
    then show ?thesis
      by (auto simp: holds_type_def is_generic_def split: option.splits)
  qed
qed

lemma holder_is_priority:
  assumes "registry_inv rt" and "candidates rt message = Inr (prio, normal)"
    and "r \<in> set (routes rt)"
    and "extract_segment_type message = PStr t \<and> t \<noteq> [] \<and> holds_type r t
         \<or> extract_event_type message = Inr (PStr e) \<and> e \<noteq> [] \<and> holds_event r e"
  shows "r \<in> set prio"
proof -
  from assms(2) obtain etype by_event by_type where
      ee: "extract_event_type message = Inr etype"
      and be: "bucket_of etype (event_routes rt) = Inr by_event"
      and bt: "bucket_of (extract_segment_type message) (type_routes rt) = Inr by_type"
      and p: "prio = by_event @ by_type"
    by (rule candidates_Inr)
  from assms(4) show ?thesis
  proof
    assume a: "extract_segment_type message = PStr t \<and> t \<noteq> [] \<and> holds_type r t"
    with bt have "set by_type = bucket_set (type_routes rt) t"
      by (simp add: bucket_of_str)
    with assms(1,3) a have "r \<in> set by_type"
      by (simp add: registry_inv_def)
    with p show ?thesis by simp
  next
    assume a: "extract_event_type message = Inr (PStr e) \<and> e \<noteq> [] \<and> holds_event r e"
    with ee have "etype = PStr e" by simp
    with be a have "set by_event = bucket_set (event_routes rt) e"
      by (simp add: bucket_of_str)
    with assms(1,3) a have "r \<in> set by_event"
      by (simp add: registry_inv_def)
    with p show ?thesis by simp
  qed
qed

lemma try_candidates_Some:
  assumes "try_candidates cs seen message = (Inr (Some r'), seen', evs)"
  shows "r' \<in> set cs \<and> (\<exists>w. predicate r' message = Inr w \<and> truthy w)"
  using assms
proof (induction cs arbitrary: seen seen' evs)
  case Nil
  then show ?case by simp
next
  case (Cons c cs)
  show ?case
  proof (cases "rid c \<in> set seen")
    case True
    with Cons.prems have "try_candidates cs seen message = (Inr (Some r'), seen', evs)" by simp
    from Cons.IH [OF this] show ?thesis by simp
  next
    case False
    show ?thesis
    proof (cases "predicate c message")
      case (Inl e)
      with False Cons.prems show ?thesis by simp
    next
      case (Inr v)
      show ?thesis
      proof (cases "truthy v")
        case True
        with False Inr Cons.prems show ?thesis by auto
      next
        case f: False
        obtain res s' es where t: "try_candidates cs (rid c # seen) message = (res, s', es)"
          by (cases "try_candidates cs (rid c # seen) message")
        with False Inr f Cons.prems have "res = Inr (Some r')" by simp
        with t Cons.IH show ?thesis by auto
      qed
    qed
  qed
qed

lemma try_candidates_None:
  assumes "inj_on rid (set cs)"
    and "try_candidates cs seen message = (Inr None, seen', evs)"
  shows "\<forall>c\<in>set cs. rid c \<in> set seen
           \<or> ((\<exists>w. predicate c message = Inr w \<and> \<not> truthy w)
               \<and> Predicate_called (rid c) message \<in> set evs)"
  using assms
proof (induction cs arbitrary: seen seen' evs)
  case Nil
  then show ?case by simp
next
  case (Cons c cs)
  have inj: "inj_on rid (set cs)"
    using Cons.prems(1) by (simp add: inj_on_def)
  show ?case
  proof (cases "rid c \<in> set seen")
    case True
    with Cons.prems have "try_candidates cs seen message = (Inr None, seen', evs)" by simp
    from Cons.IH [OF inj this] True show ?thesis by simp
  next
    case False
    show ?thesis
    proof (cases "predicate c message")
      case (Inl e)
      with False Cons.prems show ?thesis by simp
    next
      case (Inr v)
      show ?thesis
      proof (cases "truthy v")
        case True
        with False Inr Cons.prems show ?thesis by simp
      next
        case f: False
        obtain res s' es where t: "try_candidates cs (rid c # seen) message = (res, s', es)"
          by (cases "try_candidates cs (rid c # seen) message")
        with False Inr f Cons.prems(2) have r: "res = Inr None"
          and e: "evs = Predicate_called (rid c) message # es"
          by simp_all
        from Cons.IH [OF inj t [unfolded r]]
        have ih: "\<forall>x\<in>set cs. rid x \<in> set (rid c # seen)
                    \<or> ((\<exists>w. predicate x message = Inr w \<and> \<not> truthy w)
                        \<and> Predicate_called (rid x) message \<in> set es)" .
        have c: "(\<exists>w. predicate c message = Inr w \<and> \<not> truthy w)
                 \<and> Predicate_called (rid c) message \<in> set evs"
          using Inr f e by simp
        show ?thesis
        proof
          fix x
          assume x: "x \<in> set (c # cs)"
          show "rid x \<in> set seen
                  \<or> ((\<exists>w. predicate x message = Inr w \<and> \<not> truthy w)
                      \<and> Predicate_called (rid x) message \<in> set evs)"
          proof (cases "rid x = rid c")
            case True
            with x Cons.prems(1) have "x = c"
              by (auto simp: inj_on_def)
            with c show ?thesis by simp
          next
            case False
            with x have "x \<in> set cs" by auto
            with ih False e show ?thesis by auto
          qed
        qed
      qed
    qed
  qed
qed

lemma try_candidates_finds:
  assumes "inj_on rid (set cs)"
    and "\<forall>c\<in>set cs. rid c \<in> set seen \<longrightarrow> (\<exists>w. predicate c message = Inr w \<and> \<not> truthy w)"
    and "\<forall>c\<in>set cs. \<exists>w. predicate c message = Inr w"
    and "\<exists>c\<in>set cs. \<exists>w. predicate c message = Inr w \<and> truthy w"
  shows "\<exists>r' seen' evs. try_candidates cs seen message = (Inr (Some r'), seen', evs)"
  using assms
proof (induction cs arbitrary: seen)
  case Nil
  then show ?case by simp
next
  case (Cons c cs)
  have inj: "inj_on rid (set cs)"
    using Cons.prems(1) by (simp add: inj_on_def)
  have ret: "\<forall>x\<in>set cs. \<exists>w. predicate x message = Inr w"
    using Cons.prems(3) by simp
  obtain v where v: "predicate c message = Inr v"
    using Cons.prems(3) by auto
  show ?case
  proof (cases "rid c \<in> set seen")
    case True
    with Cons.prems(2) v have "\<not> truthy v" by auto
    with Cons.prems(4) v have "\<exists>x\<in>set cs. \<exists>w. predicate x message = Inr w \<and> truthy w"
      by auto
    moreover have "\<forall>x\<in>set cs. rid x \<in> set seen \<longrightarrow> (\<exists>w. predicate x message = Inr w \<and> \<not> truthy w)"
      using Cons.prems(2) by simp
    ultimately obtain r' seen' evs where "try_candidates cs seen message = (Inr (Some r'), seen', evs)"
      using Cons.IH [OF inj _ ret] by blast
    with True show ?thesis by simp
  next
    case False
    show ?thesis
    proof (cases "truthy v")
      case True
      with False v show ?thesis by simp
    next
      case f: False
      with Cons.prems(4) v have ex: "\<exists>x\<in>set cs. \<exists>w. predicate x message = Inr w \<and> truthy w"
        by auto
      have "\<forall>x\<in>set cs. rid x \<in> set (rid c # seen)
              \<longrightarrow> (\<exists>w. predicate x message = Inr w \<and> \<not> truthy w)"
      proof (intro ballI impI)
        fix x
        assume x: "x \<in> set cs" and "rid x \<in> set (rid c # seen)"
        then consider "rid x = rid c" | "rid x \<in> set seen" by auto
        then show "\<exists>w. predicate x message = Inr w \<and> \<not> truthy w"
        proof cases
          case 1
          with x Cons.prems(1) have "x = c" by (auto simp: inj_on_def)
          with v f show ?thesis by simp
        next
          case 2
          with x Cons.prems(2) show ?thesis by simp
        qed
      qed
      from Cons.IH [OF inj this ret ex]
      obtain r' seen' evs where "try_candidates cs (rid c # seen) message = (Inr (Some r'), seen', evs)"
        by blast
      with False v f show ?thesis by simp
    qed
  qed
qed

text \<open>
  C1, amended: in a runtime built by registration calls, when the candidate lists
  can be built, a registered route holds the non-empty segment type of the
  envelope (or its non-empty event type), its predicate yields truthy and no
  priority candidate's predicate raises, then the route is a priority candidate
  and the matcher returns a priority candidate whose predicate yields truthy,
  which is not a generic route. And whenever the matcher returns a generic route,
  the predicate of every priority candidate has been called and has yielded
  falsy.
\<close>

theorem C1_priority_before_generic:
  assumes "rt = register_all iter_order cs new_runtime"
    and "candidates rt message = Inr (prio, normal)"
  shows "(r \<in> set (routes rt)
          \<and> (extract_segment_type message = PStr t \<and> t \<noteq> [] \<and> holds_type r t
              \<or> extract_event_type message = Inr (PStr e) \<and> e \<noteq> [] \<and> holds_event r e)
          \<and> predicate r message = Inr v \<and> truthy v
          \<and> (\<forall>c\<in>set prio. \<exists>w. predicate c message = Inr w)
         \<longrightarrow> r \<in> set prio
             \<and> (\<exists>r' evs w. match_route rt message = (Inr (Some r'), evs)
                   \<and> r' \<in> set prio \<and> \<not> is_generic r'
                   \<and> predicate r' message = Inr w \<and> truthy w))
         \<and> (match_route rt message = (Inr (Some g), evs') \<and> is_generic g
         \<longrightarrow> (\<forall>c\<in>set prio. (\<exists>w. predicate c message = Inr w \<and> \<not> truthy w)
                               \<and> Predicate_called (rid c) message \<in> set evs'))"
proof (intro conjI impI)
  have inv: "registry_inv rt"
    unfolding assms(1) by (rule registry_inv_register_all) (rule registry_inv_new)
  have sub: "set prio \<subseteq> set (routes rt)"
    using priority_not_generic [OF inv assms(2)] by blast
  have inj: "inj_on rid (set prio)"
    using rid_inj [OF inv] sub by (rule inj_on_subset)
  {
    assume a: "r \<in> set (routes rt)
          \<and> (extract_segment_type message = PStr t \<and> t \<noteq> [] \<and> holds_type r t
              \<or> extract_event_type message = Inr (PStr e) \<and> e \<noteq> [] \<and> holds_event r e)
          \<and> predicate r message = Inr v \<and> truthy v
          \<and> (\<forall>c\<in>set prio. \<exists>w. predicate c message = Inr w)"
    then have p: "r \<in> set prio"
      using holder_is_priority [OF inv assms(2), of r t e] by blast
    then show "r \<in> set prio" .
    from p a have "\<exists>c\<in>set prio. \<exists>w. predicate c message = Inr w \<and> truthy w"
      by blast
    with a obtain r' seen' evs where
        tc: "try_candidates prio [] message = (Inr (Some r'), seen', evs)"
      using try_candidates_finds [OF inj, of "[]" message] by auto
    from try_candidates_Some [OF tc] obtain w where
        r': "r' \<in> set prio" and w: "predicate r' message = Inr w" "truthy w"
      by blast
    have "match_route rt message = (Inr (Some r'), evs)"
      by (simp add: match_route_def assms(2) tc)
    moreover have "\<not> is_generic r'"
      using priority_not_generic [OF inv assms(2) r'] by simp
    ultimately show "\<exists>r' evs w. match_route rt message = (Inr (Some r'), evs)
                   \<and> r' \<in> set prio \<and> \<not> is_generic r'
                   \<and> predicate r' message = Inr w \<and> truthy w"
      using r' w by blast
  }
  {
    assume b: "match_route rt message = (Inr (Some g), evs') \<and> is_generic g"
    obtain res seen evs where tc: "try_candidates prio [] message = (res, seen, evs)"
      by (cases "try_candidates prio [] message")
    have "res = Inr None"
    proof (cases res)
      case (Inl x)
      with b tc show ?thesis
        by (simp add: match_route_def assms(2))
    next
      case (Inr found)
      show ?thesis
      proof (cases found)
        case None
        with Inr show ?thesis by simp
      next
        case (Some r')
        with Inr tc b have "g = r'"
          by (simp add: match_route_def assms(2))
        moreover from Some Inr tc have "r' \<in> set prio"
          using try_candidates_Some by blast
        ultimately have "\<not> is_generic g"
          using priority_not_generic [OF inv assms(2)] by blast
        with b show ?thesis by simp
      qed
    qed
    with tc have tn: "try_candidates prio [] message = (Inr None, seen, evs)" by simp
    obtain res2 seen2 evs2 where "try_candidates normal seen message = (res2, seen2, evs2)"
      by (cases "try_candidates normal seen message")
    with tn b have "evs' = evs @ evs2"
      by (simp add: match_route_def assms(2))
    with try_candidates_None [OF inj tn]
    show "\<forall>c\<in>set prio. (\<exists>w. predicate c message = Inr w \<and> \<not> truthy w)
                               \<and> Predicate_called (rid c) message \<in> set evs'"
      by auto
  }
qed

lemmas register_eval =
  register_all_def apply_call_def runtime_eval insert_route_def generic_call_def

lemma c1_runtime_fields:
  "routes c1_runtime =
     [\<lparr>rid = 0, predicate = always_true, handler = named_handler ''typed'', name = None,
       message_type = Some [], message_types = Some [[]], event_types = None\<rparr>,
      \<lparr>rid = 1, predicate = always_true, handler = named_handler ''fallback'', name = None,
       message_type = None, message_types = None, event_types = None\<rparr>]"
  "event_routes c1_runtime = Map.empty"
  by (simp_all add: c1_runtime_def register_eval)

lemma c1_runtime_raising_fields:
  "routes c1_runtime_raising =
     [\<lparr>rid = 0, predicate = raising_predicate (Exc ''boom''), handler = named_handler ''on_notice'',
       name = None, message_type = None, message_types = None, event_types = Some [''notice'']\<rparr>,
      \<lparr>rid = 1, predicate = always_true, handler = named_handler ''typed'', name = None,
       message_type = Some ''text'', message_types = Some [''text''], event_types = None\<rparr>,
      \<lparr>rid = 2, predicate = always_true, handler = named_handler ''fallback'', name = None,
       message_type = None, message_types = None, event_types = None\<rparr>]"
  "event_routes c1_runtime_raising ''notice'' =
     Some [\<lparr>rid = 0, predicate = raising_predicate (Exc ''boom''), handler = named_handler ''on_notice'',
       name = None, message_type = None, message_types = None, event_types = Some [''notice'']\<rparr>]"
  "type_routes c1_runtime_raising ''text'' =
     Some [\<lparr>rid = 1, predicate = always_true, handler = named_handler ''typed'', name = None,
       message_type = Some ''text'', message_types = Some [''text''], event_types = None\<rparr>]"
  by (simp_all add: c1_runtime_raising_def register_eval)

lemmas match_eval =
  match_route_def candidates_def extract_event_type_def extract_segment_type_def
  bucket_of_def is_generic_def py_or_def dict_get_def dict_get_default_def val_get_def
  val_get_default_def

text \<open>
  C1, as stated, fails: a route that holds the empty string as explicit type is
  not consulted for an envelope of that type, and a generic route is returned;
  and when the predicate of an earlier priority candidate raises, the matcher
  returns no route although a later priority candidate's predicate yields truthy.
\<close>

theorem C1_counterexample:
  "holds_type (routes c1_runtime ! 0) []
   \<and> extract_segment_type c1_envelope = PStr []
   \<and> predicate (routes c1_runtime ! 0) c1_envelope = Inr (PBool True)
   \<and> fst (match_route c1_runtime c1_envelope) = Inr (Some (routes c1_runtime ! 1))
   \<and> is_generic (routes c1_runtime ! 1)
   \<and> holds_type (routes c1_runtime_raising ! 1) ''text''
   \<and> extract_segment_type c1_envelope_notice = PStr ''text''
   \<and> predicate (routes c1_runtime_raising ! 1) c1_envelope_notice = Inr (PBool True)
   \<and> fst (match_route c1_runtime_raising c1_envelope_notice) = Inl (Exc ''boom'')"
proof -
  have "fst (match_route c1_runtime c1_envelope) = Inr (Some (routes c1_runtime ! 1))"
    by (simp add: match_eval c1_runtime_fields c1_envelope_def always_true_def)
  moreover have "fst (match_route c1_runtime_raising c1_envelope_notice) = Inl (Exc ''boom'')"
    by (simp add: match_eval c1_runtime_raising_fields c1_envelope_notice_def raising_predicate_def)
  moreover have "holds_type (routes c1_runtime ! 0) []"
    and "is_generic (routes c1_runtime ! 1)"
    and "predicate (routes c1_runtime ! 0) c1_envelope = Inr (PBool True)"
    by (simp_all add: c1_runtime_fields holds_type_def is_generic_def always_true_def)
  moreover have "holds_type (routes c1_runtime_raising ! 1) ''text''"
    and "predicate (routes c1_runtime_raising ! 1) c1_envelope_notice = Inr (PBool True)"
    by (simp_all add: c1_runtime_raising_fields holds_type_def always_true_def)
  moreover have "extract_segment_type c1_envelope = PStr []"
    and "extract_segment_type c1_envelope_notice = PStr ''text''"
    by (simp_all add: c1_envelope_def c1_envelope_notice_def extract_segment_type_def py_or_def
          dict_get_def dict_get_default_def)
  ultimately show ?thesis by simp
qed

lemma c1_runtime_typed_fields:
  "routes c1_runtime_typed =
     [\<lparr>rid = 0, predicate = always_true, handler = named_handler ''fallback'', name = None,
       message_type = None, message_types = None, event_types = None\<rparr>,
      \<lparr>rid = 1, predicate = always_true, handler = named_handler ''typed'', name = None,
       message_type = None, message_types = Some [''text'', ''image''], event_types = None\<rparr>,
      \<lparr>rid = 2, predicate = always_false, handler = named_handler ''muted'', name = None,
       message_type = Some ''audio'', message_types = Some [''audio''], event_types = None\<rparr>]"
  "type_routes c1_runtime_typed ''text'' =
     Some [\<lparr>rid = 1, predicate = always_true, handler = named_handler ''typed'', name = None,
       message_type = None, message_types = Some [''text'', ''image''], event_types = None\<rparr>]"
  "type_routes c1_runtime_typed ''audio'' =
     Some [\<lparr>rid = 2, predicate = always_false, handler = named_handler ''muted'', name = None,
       message_type = Some ''audio'', message_types = Some [''audio''], event_types = None\<rparr>]"
  "event_routes c1_runtime_typed = Map.empty"
  by (simp_all add: c1_runtime_typed_def c1_calls_def register_eval)

lemma c1_candidates_text:
  "candidates c1_runtime_typed text_message
     = Inr ([routes c1_runtime_typed ! 1], [routes c1_runtime_typed ! 0])"
  by (simp add: match_eval c1_runtime_typed_fields text_message_def)

lemma c1_candidates_audio:
  "candidates c1_runtime_typed audio_message
     = Inr ([routes c1_runtime_typed ! 2], [routes c1_runtime_typed ! 0])"
  by (simp add: match_eval c1_runtime_typed_fields audio_message_def)

lemma c1_match_audio:
  "match_route c1_runtime_typed audio_message
     = (Inr (Some (routes c1_runtime_typed ! 0)),
        [Predicate_called 2 audio_message, Predicate_called 0 audio_message])"
  by (simp add: match_route_def c1_candidates_audio c1_runtime_typed_fields always_false_def
        always_true_def)

theorem C1_priority_before_generic_witness:
  "fst (match_route c1_runtime_typed text_message) = Inr (Some (routes c1_runtime_typed ! 1))
   \<and> \<not> is_generic (routes c1_runtime_typed ! 1)
   \<and> fst (match_route c1_runtime_typed audio_message) = Inr (Some (routes c1_runtime_typed ! 0))
   \<and> is_generic (routes c1_runtime_typed ! 0)
   \<and> predicate (routes c1_runtime_typed ! 2) audio_message = Inr (PBool False)
   \<and> Predicate_called 2 audio_message \<in> set (snd (match_route c1_runtime_typed audio_message))"
proof -
  let ?r1 = "routes c1_runtime_typed ! 1"
  have h: "?r1 \<in> set (routes c1_runtime_typed)
          \<and> (extract_segment_type text_message = PStr ''text'' \<and> ''text'' \<noteq> [] \<and> holds_type ?r1 ''text''
              \<or> extract_event_type text_message = Inr (PStr []) \<and> ([] :: string) \<noteq> [] \<and> holds_event ?r1 [])
          \<and> predicate ?r1 text_message = Inr (PBool True) \<and> truthy (PBool True)
          \<and> (\<forall>c\<in>set [?r1]. \<exists>w. predicate c text_message = Inr w)"
    by (simp add: c1_runtime_typed_fields holds_type_def always_true_def text_message_def
          extract_segment_type_def py_or_def dict_get_def dict_get_default_def)
  from C1_priority_before_generic [OF c1_runtime_typed_def c1_candidates_text,
      of ?r1 "''text''" "[]" "PBool True"] h
  have "\<exists>r' evs w. match_route c1_runtime_typed text_message = (Inr (Some r'), evs)
                   \<and> r' \<in> set [?r1] \<and> \<not> is_generic r'
                   \<and> predicate r' text_message = Inr w \<and> truthy w"
    by blast
  then have t: "fst (match_route c1_runtime_typed text_message) = Inr (Some ?r1)"
    and n: "\<not> is_generic ?r1"
    by auto
  have g: "is_generic (routes c1_runtime_typed ! 0)"
    by (simp add: c1_runtime_typed_fields is_generic_def)
  from C1_priority_before_generic [OF c1_runtime_typed_def c1_candidates_audio,
      of _ _ _ _ "routes c1_runtime_typed ! 0"
         "[Predicate_called 2 audio_message, Predicate_called 0 audio_message]"]
    c1_match_audio g
  have "\<forall>c\<in>set [routes c1_runtime_typed ! 2].
          (\<exists>w. predicate c audio_message = Inr w \<and> \<not> truthy w)
          \<and> Predicate_called (rid c) audio_message
               \<in> set [Predicate_called 2 audio_message, Predicate_called 0 audio_message]"
    by blast
  then have "Predicate_called 2 audio_message \<in> set (snd (match_route c1_runtime_typed audio_message))"
    by (simp add: c1_match_audio)
  moreover have "predicate (routes c1_runtime_typed ! 2) audio_message = Inr (PBool False)"
    by (simp add: c1_runtime_typed_fields always_false_def)
  ultimately show ?thesis
    using t n g by (simp add: c1_match_audio)
qed

end
